theory Spec2Isabelle
  imports Main "HOL-Library.Word"
begin

section \<open>Data model of exporter.go\<close>

text \<open>
  Go strings and byte slices are sequences of bytes; an Isabelle \<open>char\<close> is one byte, so
  both are modelled as \<open>string\<close>. An error value coming out of a library (network stack,
  dotenv reader) is kept as its message.
\<close>

type_synonym bytes = string
type_synonym lib_error = string

text \<open>\<open>time.Duration\<close> is an \<open>int64\<close> count of nanoseconds; Go's \<open>int\<close> is 64 bits wide
  on the platforms the Dockerfile builds for. Both are 64-bit words read with \<open>sint\<close>.\<close>

record Config =
  ApiURL :: string
  User :: string
  Password :: string
  Port :: string
  ScrapeInterval :: "64 word"

record BlockedValue =
  UUID :: string
  IP :: string

record BlackholeResponse =
  Success :: bool
  Values :: "BlockedValue list"

subsection \<open>Errors and log lines\<close>

datatype json_error = SyntaxError | UnmarshalTypeError

datatype error =
    MissingEnvironment
  | CreatingRequest lib_error
  | MakingRequest lib_error
  | UnexpectedStatus int string
  | ReadingBody lib_error

text \<open>One constructor per \<open>log.Print*\<close> call of the source, and \<open>Tick\<close> for a value
  received from \<open>ticker.C\<close>.\<close>

datatype event =
    LogDotenvWarning lib_error
  | LogScraping
  | LogScrapeError error
  | LogDecodeError json_error
  | LogNotSuccessful
  | LogUpdated nat
  | Tick

section \<open>Decoding the response body\<close>

text \<open>
  \<open>json.Unmarshal\<close> belongs to Go's standard library. Its lexical layer (is the input
  syntactically valid JSON, and which value does it denote) and the case folding it uses to
  match object keys with struct fields are parameters of the model. What it does with a JSON
  value and a target of type \<open>BlackholeResponse\<close> is written out below, following
  \<open>encoding/json\<close> for the struct declared in the source: the input is checked for syntax
  first; \<open>null\<close> leaves a struct, a bool or a string as it is and makes a slice nil; an
  object fills the fields its keys match (exact name first, then the first field equal under
  case folding) in the order of the keys and ignores other keys; any other combination is an
  \<open>UnmarshalTypeError\<close>. An array is decoded in place: its \<open>i\<close>-th element is decoded
  into the \<open>i\<close>-th element of the slice's backing array as it is, so a part the element
  does not set keeps what an earlier array under the same field left there; positions the
  backing array never held start from the zero value; at the end the slice is cut to the
  number of elements, and an empty array makes a fresh empty slice. The decoder of the library
  carries on after a type error and reports the first one at the end; since the caller drops
  the struct on any error, the model stops at the first.
\<close>

datatype json =
    JNull
  | JBool bool
  | JNumber string
  | JString string
  | JArray "json list"
  | JObject "(string \<times> json) list"

record encoding_json =
  scan :: "bytes \<Rightarrow> json option"
  foldName :: "string \<Rightarrow> string"

definition field_of_key :: "'a encoding_json_scheme \<Rightarrow> string list \<Rightarrow> string \<Rightarrow> string option" where
  "field_of_key lib names key =
     (if key \<in> set names then Some key
      else find (\<lambda>n. foldName lib n = foldName lib key) names)"

fun decode_string :: "string \<Rightarrow> json \<Rightarrow> json_error + string" where
  "decode_string cur (JString s) = Inr s"
| "decode_string cur JNull = Inr cur"
| "decode_string cur _ = Inl UnmarshalTypeError"

fun decode_bool :: "bool \<Rightarrow> json \<Rightarrow> json_error + bool" where
  "decode_bool cur (JBool b) = Inr b"
| "decode_bool cur JNull = Inr cur"
| "decode_bool cur _ = Inl UnmarshalTypeError"

fun decode_members ::
  "(string \<Rightarrow> json \<Rightarrow> 'a \<Rightarrow> json_error + 'a) \<Rightarrow> (string \<times> json) list \<Rightarrow> 'a \<Rightarrow> json_error + 'a" where
  "decode_members f [] a = Inr a"
| "decode_members f ((k, v) # ms) a =
     (case f k v a of Inl e \<Rightarrow> Inl e | Inr a' \<Rightarrow> decode_members f ms a')"

definition zero_BlockedValue :: BlockedValue where
  "zero_BlockedValue = \<lparr>UUID = [], IP = []\<rparr>"

definition zero_BlackholeResponse :: BlackholeResponse where
  "zero_BlackholeResponse = \<lparr>Success = False, Values = []\<rparr>"

definition set_BlockedValue_field ::
  "'a encoding_json_scheme \<Rightarrow> string \<Rightarrow> json \<Rightarrow> BlockedValue \<Rightarrow> json_error + BlockedValue" where
  "set_BlockedValue_field lib k v b =
     (case field_of_key lib [''uuid'', ''ip''] k of
        None \<Rightarrow> Inr b
      | Some n \<Rightarrow>
          if n = ''uuid''
          then (case decode_string (UUID b) v of Inl e \<Rightarrow> Inl e | Inr s \<Rightarrow> Inr (b\<lparr>UUID := s\<rparr>))
          else (case decode_string (IP b) v of Inl e \<Rightarrow> Inl e | Inr s \<Rightarrow> Inr (b\<lparr>IP := s\<rparr>)))"

definition decode_BlockedValue ::
  "'a encoding_json_scheme \<Rightarrow> json \<Rightarrow> BlockedValue \<Rightarrow> json_error + BlockedValue" where
  "decode_BlockedValue lib j b =
     (case j of
        JNull \<Rightarrow> Inr b
      | JObject ms \<Rightarrow> decode_members (set_BlockedValue_field lib) ms b
      | _ \<Rightarrow> Inl UnmarshalTypeError)"

text \<open>The elements of a JSON array, decoded against what is left of the backing array.\<close>

fun decode_elements ::
  "'a encoding_json_scheme \<Rightarrow> json list \<Rightarrow> BlockedValue list \<Rightarrow> json_error + BlockedValue list" where
  "decode_elements lib [] backing = Inr []"
| "decode_elements lib (j # js) backing =
     (case decode_BlockedValue lib j
             (case backing of [] \<Rightarrow> zero_BlockedValue | b # bs \<Rightarrow> b) of
        Inl e \<Rightarrow> Inl e
      | Inr b \<Rightarrow>
          (case decode_elements lib js (tl backing) of
             Inl e \<Rightarrow> Inl e
           | Inr bs \<Rightarrow> Inr (b # bs)))"

text \<open>
  A slice is a window on a backing array. The decoder's view of the field \<open>Values\<close> is the
  pair of the slice's elements and of the part of the backing array behind them that an
  earlier, longer array has written.
\<close>

definition decode_Values ::
  "'a encoding_json_scheme \<Rightarrow> json \<Rightarrow> BlockedValue list \<times> BlockedValue list \<Rightarrow>
   json_error + BlockedValue list \<times> BlockedValue list" where
  "decode_Values lib j sl =
     (case j of
        JNull \<Rightarrow> Inr ([], [])
      | JArray js \<Rightarrow>
          (case decode_elements lib js (fst sl @ snd sl) of
             Inl e \<Rightarrow> Inl e
           | Inr bs \<Rightarrow>
               Inr (if js = [] then ([], []) else (bs, drop (length js) (fst sl @ snd sl))))
      | _ \<Rightarrow> Inl UnmarshalTypeError)"

definition set_BlackholeResponse_field ::
  "'a encoding_json_scheme \<Rightarrow> string \<Rightarrow> json \<Rightarrow> BlackholeResponse \<times> BlockedValue list \<Rightarrow>
   json_error + BlackholeResponse \<times> BlockedValue list" where
  "set_BlackholeResponse_field lib k v st =
     (case field_of_key lib [''success'', ''values''] k of
        None \<Rightarrow> Inr st
      | Some n \<Rightarrow>
          if n = ''success''
          then (case decode_bool (Success (fst st)) v of
                  Inl e \<Rightarrow> Inl e
                | Inr b \<Rightarrow> Inr ((fst st)\<lparr>Success := b\<rparr>, snd st))
          else (case decode_Values lib v (Values (fst st), snd st) of
                  Inl e \<Rightarrow> Inl e
                | Inr sl \<Rightarrow> Inr ((fst st)\<lparr>Values := fst sl\<rparr>, snd sl)))"

definition decode_BlackholeResponse ::
  "'a encoding_json_scheme \<Rightarrow> json \<Rightarrow> BlackholeResponse \<times> BlockedValue list \<Rightarrow>
   json_error + BlackholeResponse \<times> BlockedValue list" where
  "decode_BlackholeResponse lib j st =
     (case j of
        JNull \<Rightarrow> Inr st
      | JObject ms \<Rightarrow> decode_members (set_BlackholeResponse_field lib) ms st
      | _ \<Rightarrow> Inl UnmarshalTypeError)"

text \<open>\<open>var resp BlackholeResponse; json.Unmarshal(body, &resp)\<close>: the target starts as the
  zero value of the struct, whose slice is nil.\<close>

definition json_Unmarshal :: "'a encoding_json_scheme \<Rightarrow> bytes \<Rightarrow> json_error + BlackholeResponse" where
  "json_Unmarshal lib body =
     (case scan lib body of
        None \<Rightarrow> Inl SyntaxError
      | Some j \<Rightarrow>
          (case decode_BlackholeResponse lib j (zero_BlackholeResponse, []) of
             Inl e \<Rightarrow> Inl e
           | Inr st \<Rightarrow> Inr (fst st)))"

section \<open>The metric store\<close>

text \<open>
  \<open>blockedIP\<close> is a gauge vector with the variable labels \<open>ip\<close> and \<open>uuid\<close>: a table from
  the pair of label values to a gauge. It is modelled as an association list in order of
  creation, with at most one gauge per pair. \<open>Reset\<close> deletes every gauge; \<open>With\<close> returns
  the gauge of the given label values and creates it, with value 0, when there is none;
  \<open>Set\<close> stores a value in that gauge. Both label names of the vector are always supplied
  and the label values are strings out of the JSON decoder, so \<open>With\<close> has no failing
  case here. The only values the program stores are 0 and 1, so
  the \<open>float64\<close> of a gauge is modelled as an integer.
\<close>

type_synonym labels = "string \<times> string"
type_synonym GaugeVec = "(labels \<times> int) list"

definition labels_of :: "BlockedValue \<Rightarrow> labels" where
  "labels_of v = (IP v, UUID v)"

definition Reset :: "GaugeVec \<Rightarrow> GaugeVec" where
  "Reset g = []"

definition With :: "labels \<Rightarrow> GaugeVec \<Rightarrow> GaugeVec" where
  "With l g = (if l \<in> fst ` set g then g else g @ [(l, 0)])"

definition Gauge_Set :: "labels \<Rightarrow> int \<Rightarrow> GaugeVec \<Rightarrow> GaugeVec" where
  "Gauge_Set l x g = map (\<lambda>(k, y). if k = l then (k, x) else (k, y)) g"

text \<open>What the metrics endpoint shows of the store: its series, each a pair of label values
  with the gauge's value. The text format and the order of the lines belong to the metrics
  library.\<close>

definition render :: "GaugeVec \<Rightarrow> (labels \<times> int) set" where
  "render g = set g"

text \<open>The state of the process: the vector, the log lines written and ticks received so
  far, and the number of requests the HTTP client has sent.\<close>

record exporter =
  blockedIP :: GaugeVec
  trace :: "event list"
  sent :: nat

section \<open>updateMetrics\<close>

text \<open>Lines 127 to 130: \<open>Reset\<close>, then one \<open>With(...).Set(1)\<close> per element of
  \<open>resp.Values\<close> in order.\<close>

definition set_one :: "GaugeVec \<Rightarrow> BlockedValue \<Rightarrow> GaugeVec" where
  "set_one g v = Gauge_Set (labels_of v) 1 (With (labels_of v) g)"

definition replace :: "BlockedValue list \<Rightarrow> GaugeVec \<Rightarrow> GaugeVec" where
  "replace vs g = foldl set_one (Reset g) vs"

definition updateMetrics :: "'a encoding_json_scheme \<Rightarrow> bytes \<Rightarrow> exporter \<Rightarrow> exporter" where
  "updateMetrics lib body s =
     (case json_Unmarshal lib body of
        Inl err \<Rightarrow> s\<lparr>trace := trace s @ [LogDecodeError err]\<rparr>
      | Inr resp \<Rightarrow>
          if \<not> Success resp
          then s\<lparr>trace := trace s @ [LogNotSuccessful]\<rparr>
          else s\<lparr>blockedIP := replace (Values resp) (blockedIP s),
                 trace := trace s @ [LogUpdated (length (Values resp))]\<rparr>)"

text \<open>
  The statements of \<open>updateMetrics\<close> run one after the other while the metrics endpoint
  may read the store from another goroutine. Each call on the vector is one indivisible step
  (the vector guards its table with a lock), so a concurrent reader sees the store as it is
  before the first call or after one of the calls. \<open>replace_states\<close> lists these stores
  in program order: the old one, the one after \<open>Reset\<close>, and the ones after each
  \<open>With\<close> and each \<open>Set\<close>.
\<close>

fun refill_states :: "GaugeVec \<Rightarrow> BlockedValue list \<Rightarrow> GaugeVec list" where
  "refill_states g [] = []"
| "refill_states g (v # vs) =
     With (labels_of v) g # set_one g v # refill_states (set_one g v) vs"

definition replace_states :: "BlockedValue list \<Rightarrow> GaugeVec \<Rightarrow> GaugeVec list" where
  "replace_states vs g = g # Reset g # refill_states (Reset g) vs"

section \<open>fetchBlockedIPs\<close>

text \<open>
  The network is a parameter: \<open>url_error\<close> says whether \<open>http.NewRequest\<close> rejects a
  URL, and \<open>round_trip n req\<close> is what \<open>httpClient.Do\<close> gets for the request \<open>req\<close>
  when \<open>n\<close> requests were sent before it: an error (no connection, timeout) or a response.
  The \<open>Body\<close> of a response is what \<open>io.ReadAll\<close> makes of its stream. The state counts
  the requests sent.
\<close>

record Request =
  Method :: string
  URL :: string
  BasicAuth :: "(string \<times> string) option"

record Response =
  StatusCode :: int
  Status :: string
  Body :: "lib_error + bytes"

record environment = encoding_json +
  url_error :: "string \<Rightarrow> lib_error option"
  round_trip :: "nat \<Rightarrow> Request \<Rightarrow> lib_error + Response"

definition http_NewRequest :: "environment \<Rightarrow> string \<Rightarrow> string \<Rightarrow> lib_error + Request" where
  "http_NewRequest env m u =
     (case url_error env u of
        Some e \<Rightarrow> Inl e
      | None \<Rightarrow> Inr \<lparr>Method = m, URL = u, BasicAuth = None\<rparr>)"

definition SetBasicAuth :: "string \<Rightarrow> string \<Rightarrow> Request \<Rightarrow> Request" where
  "SetBasicAuth u p req = req\<lparr>BasicAuth := Some (u, p)\<rparr>"

definition httpClient_Do :: "environment \<Rightarrow> Request \<Rightarrow> exporter \<Rightarrow> (lib_error + Response) \<times> exporter" where
  "httpClient_Do env req s = (round_trip env (sent s) req, s\<lparr>sent := sent s + 1\<rparr>)"

definition StatusOK :: int where
  "StatusOK = 200"

definition fetchBlockedIPs :: "environment \<Rightarrow> Config \<Rightarrow> exporter \<Rightarrow> (error + bytes) \<times> exporter" where
  "fetchBlockedIPs env cfg s =
     (case http_NewRequest env ''GET'' (ApiURL cfg) of
        Inl e \<Rightarrow> (Inl (CreatingRequest e), s)
      | Inr req0 \<Rightarrow>
          (case httpClient_Do env (SetBasicAuth (User cfg) (Password cfg) req0) s of
             (Inl e, s') \<Rightarrow> (Inl (MakingRequest e), s')
           | (Inr resp, s') \<Rightarrow>
               if StatusCode resp \<noteq> StatusOK
               then (Inl (UnexpectedStatus (StatusCode resp) (Status resp)), s')
               else (case Body resp of
                       Inl e \<Rightarrow> (Inl (ReadingBody e), s')
                     | Inr body \<Rightarrow> (Inr body, s'))))"

section \<open>startScrapingLoop\<close>

text \<open>The body of the \<open>for\<close> statement, lines 141 to 147.\<close>

definition scrape_cycle :: "environment \<Rightarrow> Config \<Rightarrow> exporter \<Rightarrow> exporter" where
  "scrape_cycle env cfg s =
     (case fetchBlockedIPs env cfg (s\<lparr>trace := trace s @ [LogScraping]\<rparr>) of
        (Inl err, s') \<Rightarrow> s'\<lparr>trace := trace s' @ [LogScrapeError err]\<rparr>
      | (Inr body, s') \<Rightarrow> updateMetrics env body s')"

definition receive_tick :: "exporter \<Rightarrow> exporter" where
  "receive_tick s = s\<lparr>trace := trace s @ [Tick]\<rparr>"

text \<open>
  \<open>for ; ; <-ticker.C { ... }\<close> has no condition: the body runs, then the post statement
  waits for a tick, then the body runs again. \<open>iterations n\<close> is the state when the ticker
  has delivered its \<open>n\<close>-th tick, that is after \<open>n\<close> rounds of body and receive.
  \<open>scrape_forever\<close> is the statement itself: its value is \<open>None\<close> when it never completes.
\<close>

fun iterations :: "nat \<Rightarrow> environment \<Rightarrow> Config \<Rightarrow> exporter \<Rightarrow> exporter" where
  "iterations 0 env cfg s = s"
| "iterations (Suc n) env cfg s = iterations n env cfg (receive_tick (scrape_cycle env cfg s))"

partial_function (option) scrape_forever :: "environment \<Rightarrow> Config \<Rightarrow> exporter \<Rightarrow> exporter option" where
  "scrape_forever env cfg s = scrape_forever env cfg (receive_tick (scrape_cycle env cfg s))"

text \<open>\<open>time.NewTicker\<close> panics when the duration is not positive.\<close>

datatype panic = NonPositiveInterval

definition startScrapingLoop :: "nat \<Rightarrow> environment \<Rightarrow> Config \<Rightarrow> exporter \<Rightarrow> panic + exporter" where
  "startScrapingLoop n env cfg s =
     (if sint (ScrapeInterval cfg) \<le> 0 then Inl NonPositiveInterval
      else Inr (iterations n env cfg s))"

section \<open>loadConfig and main\<close>

text \<open>
  The process environment is a map from names to values; \<open>os.Getenv\<close> gives the empty
  string for a name that is not set. \<open>godotenv.Load\<close> gets the outcome of reading and
  parsing the file \<open>.env\<close> as a parameter: on an error it changes nothing, otherwise it
  sets the variables of the file that the environment does not have yet.
\<close>

type_synonym environ = "string \<rightharpoonup> string"

definition Getenv :: "environ \<Rightarrow> string \<Rightarrow> string" where
  "Getenv vars k = (case vars k of None \<Rightarrow> [] | Some v \<Rightarrow> v)"

definition godotenv_Load :: "lib_error + environ \<Rightarrow> environ \<Rightarrow> lib_error option \<times> environ" where
  "godotenv_Load file vars =
     (case file of
        Inl e \<Rightarrow> (Some e, vars)
      | Inr fvars \<Rightarrow> (None, fvars ++ vars))"

text \<open>
  \<open>strconv.Atoi\<close> in base 10: an optional sign, then one or more decimal digits and
  nothing else. The digits are accumulated from the left as an unsigned 64-bit number; the
  first character that is not a digit is a syntax error, a value that leaves the unsigned
  range is a range error at the digit where it does, and so is a result outside the signed
  64-bit range.
\<close>

datatype NumError = ErrSyntax | ErrRange

definition digit_val :: "char \<Rightarrow> nat option" where
  "digit_val c =
     (let n = (of_char c :: nat) in if 48 \<le> n \<and> n \<le> 57 then Some (n - 48) else None)"

fun ParseUint :: "string \<Rightarrow> nat \<Rightarrow> NumError + nat" where
  "ParseUint [] n = Inr n"
| "ParseUint (c # cs) n =
     (case digit_val c of
        None \<Rightarrow> Inl ErrSyntax
      | Some d \<Rightarrow> if 2 ^ 64 \<le> n * 10 + d then Inl ErrRange else ParseUint cs (n * 10 + d))"

definition Atoi :: "string \<Rightarrow> NumError + 64 word" where
  "Atoi str =
     (let neg = (str \<noteq> [] \<and> hd str = CHR ''-'');
          ds = (if str \<noteq> [] \<and> (hd str = CHR ''-'' \<or> hd str = CHR ''+'') then tl str else str)
      in if ds = [] then Inl ErrSyntax
         else (case ParseUint ds 0 of
                 Inl e \<Rightarrow> Inl e
               | Inr un \<Rightarrow>
                   if \<not> neg \<and> 2 ^ 63 \<le> un then Inl ErrRange
                   else if neg \<and> 2 ^ 63 < un then Inl ErrRange
                   else Inr (word_of_int (if neg then - int un else int un))))"

definition Second :: "64 word" where
  "Second = 1000000000"

definition loadConfig :: "lib_error + environ \<Rightarrow> environ \<Rightarrow> event list \<times> (error + Config)" where
  "loadConfig file vars0 =
     (case godotenv_Load file vars0 of (err, vars) \<Rightarrow>
        let logs = (case err of Some e \<Rightarrow> [LogDotenvWarning e] | None \<Rightarrow> []);
            cfg = \<lparr>ApiURL = Getenv vars ''EXPORTER_API_URL'',
                   User = Getenv vars ''EXPORTER_USER'',
                   Password = Getenv vars ''EXPORTER_PASSWORD'',
                   Port = Getenv vars ''EXPORTER_PORT'',
                   ScrapeInterval = 0\<rparr>
        in if ApiURL cfg = [] \<or> User cfg = [] \<or> Password cfg = []
           then (logs, Inl MissingEnvironment)
           else
             let cfg1 = (if Port cfg = [] then cfg\<lparr>Port := '':9898''\<rparr> else cfg);
                 interval =
                   (case Atoi (Getenv vars ''EXPORTER_SCRAPE_INTERVAL_SECONDS'') of
                      Inl e \<Rightarrow> 60
                    | Inr i \<Rightarrow> if sint i \<le> 0 then 60 else i)
             in (logs, Inr (cfg1\<lparr>ScrapeInterval := interval * Second\<rparr>)))"

text \<open>
  \<open>main\<close> up to its first decision: \<open>log.Fatalf\<close> ends the process with status 1 when
  \<open>loadConfig\<close> fails; otherwise the scraping goroutine and the HTTP listener are started
  with the configuration.
\<close>

datatype process = Exit nat | Started Config

definition main :: "lib_error + environ \<Rightarrow> environ \<Rightarrow> process" where
  "main file vars =
     (case snd (loadConfig file vars) of
        Inl e \<Rightarrow> Exit 1
      | Inr cfg \<Rightarrow> Started cfg)"

section \<open>Payloads the decoder accepts, and the form the specification expects\<close>

text \<open>
  The JSON values the decoder accepts, stated on the value and without running the decoder:
  the value is an object or \<open>null\<close>; under a key that matches \<open>success\<close> stands a boolean
  or \<open>null\<close>; under a key that matches \<open>values\<close> stands \<open>null\<close> or an array whose
  elements are \<open>null\<close> or objects with a string or \<open>null\<close> under the keys that match
  \<open>uuid\<close> and \<open>ip\<close>. Keys that match no field carry anything. \<open>accepted\<close> holds of a
  body that is valid JSON with such a value. \<open>success_absent\<close> holds of a value none of
  whose keys matches the field \<open>success\<close>.
\<close>

definition string_or_null :: "json \<Rightarrow> bool" where
  "string_or_null j = (case j of JNull \<Rightarrow> True | JString s \<Rightarrow> True | _ \<Rightarrow> False)"

definition bool_or_null :: "json \<Rightarrow> bool" where
  "bool_or_null j = (case j of JNull \<Rightarrow> True | JBool b \<Rightarrow> True | _ \<Rightarrow> False)"

definition fits_BlockedValue :: "'a encoding_json_scheme \<Rightarrow> json \<Rightarrow> bool" where
  "fits_BlockedValue lib j =
     (case j of
        JNull \<Rightarrow> True
      | JObject ms \<Rightarrow>
          list_all (\<lambda>(k, v). field_of_key lib [''uuid'', ''ip''] k = None \<or> string_or_null v) ms
      | _ \<Rightarrow> False)"

definition fits_Values :: "'a encoding_json_scheme \<Rightarrow> json \<Rightarrow> bool" where
  "fits_Values lib j =
     (case j of
        JNull \<Rightarrow> True
      | JArray js \<Rightarrow> list_all (fits_BlockedValue lib) js
      | _ \<Rightarrow> False)"

definition fits_member :: "'a encoding_json_scheme \<Rightarrow> string \<Rightarrow> json \<Rightarrow> bool" where
  "fits_member lib k v =
     (case field_of_key lib [''success'', ''values''] k of
        None \<Rightarrow> True
      | Some n \<Rightarrow> if n = ''success'' then bool_or_null v else fits_Values lib v)"

definition fits_BlackholeResponse :: "'a encoding_json_scheme \<Rightarrow> json \<Rightarrow> bool" where
  "fits_BlackholeResponse lib j =
     (case j of
        JNull \<Rightarrow> True
      | JObject ms \<Rightarrow> list_all (\<lambda>(k, v). fits_member lib k v) ms
      | _ \<Rightarrow> False)"

definition accepted :: "'a encoding_json_scheme \<Rightarrow> bytes \<Rightarrow> bool" where
  "accepted lib body =
     (case scan lib body of None \<Rightarrow> False | Some j \<Rightarrow> fits_BlackholeResponse lib j)"

definition success_absent :: "'a encoding_json_scheme \<Rightarrow> json \<Rightarrow> bool" where
  "success_absent lib j =
     (case j of
        JObject ms \<Rightarrow>
          list_all (\<lambda>(k, v). field_of_key lib [''success'', ''values''] k \<noteq> Some ''success'') ms
      | _ \<Rightarrow> True)"

text \<open>
  The form the specification gives for a payload,
  \<open>{success: bool, values: [{uuid, ip}]}\<close>: an object with a boolean under \<open>success\<close>
  and, under \<open>values\<close>, an array of objects with a string under \<open>uuid\<close> and under
  \<open>ip\<close>; nothing is \<open>null\<close> and nothing is missing.
\<close>

definition is_string :: "json \<Rightarrow> bool" where
  "is_string j = (case j of JString s \<Rightarrow> True | _ \<Rightarrow> False)"

definition has_key :: "'a encoding_json_scheme \<Rightarrow> string list \<Rightarrow> string \<Rightarrow> (string \<times> json) list \<Rightarrow> bool" where
  "has_key lib names n ms = list_ex (\<lambda>(k, v). field_of_key lib names k = Some n) ms"

definition expected_entry :: "'a encoding_json_scheme \<Rightarrow> json \<Rightarrow> bool" where
  "expected_entry lib j =
     (case j of
        JObject fs \<Rightarrow>
          has_key lib [''uuid'', ''ip''] ''uuid'' fs \<and> has_key lib [''uuid'', ''ip''] ''ip'' fs \<and>
          list_all (\<lambda>(k, v). field_of_key lib [''uuid'', ''ip''] k = None \<or> is_string v) fs
      | _ \<Rightarrow> False)"

definition expected_member :: "'a encoding_json_scheme \<Rightarrow> string \<Rightarrow> json \<Rightarrow> bool" where
  "expected_member lib k v =
     (case field_of_key lib [''success'', ''values''] k of
        None \<Rightarrow> True
      | Some n \<Rightarrow>
          if n = ''success'' then (case v of JBool b \<Rightarrow> True | _ \<Rightarrow> False)
          else (case v of JArray js \<Rightarrow> list_all (expected_entry lib) js | _ \<Rightarrow> False))"

definition expected_form :: "'a encoding_json_scheme \<Rightarrow> json \<Rightarrow> bool" where
  "expected_form lib j =
     (case j of
        JObject ms \<Rightarrow>
          has_key lib [''success'', ''values''] ''success'' ms \<and>
          has_key lib [''success'', ''values''] ''values'' ms \<and>
          list_all (\<lambda>(k, v). expected_member lib k v) ms
      | _ \<Rightarrow> False)"

definition has_expected_form :: "'a encoding_json_scheme \<Rightarrow> bytes \<Rightarrow> bool" where
  "has_expected_form lib body =
     (case scan lib body of None \<Rightarrow> False | Some j \<Rightarrow> expected_form lib j)"






section \<open>Example inputs\<close>

text \<open>
  Concrete inputs for the examples below: a scanner that knows the JSON value of six bodies
  and takes every other body for invalid JSON, ASCII upper-casing as the case folding, and a
  server that answers the first request with an unsuccessful payload, the second with status
  500, and is unreachable afterwards.
\<close>

definition ascii_upper :: "char \<Rightarrow> char" where
  "ascii_upper c =
     (let n = (of_char c :: nat) in if 97 \<le> n \<and> n \<le> 122 then char_of (n - 32) else c)"

definition example_bodies :: "(bytes \<times> json) list" where
  \<open>example_bodies =
     [(''{"success":true,"values":[{"uuid":"u1","ip":"1.2.3.4"}]}'',
       JObject [(''success'', JBool True),
                (''values'', JArray [JObject [(''uuid'', JString ''u1''), (''ip'', JString ''1.2.3.4'')]])]),
      (''{"success":false,"values":[]}'',
       JObject [(''success'', JBool False), (''values'', JArray [])]),
      (''{}'', JObject []),
      (''{"success":true,"values":null}'',
       JObject [(''success'', JBool True), (''values'', JNull)]),
      (''{"success":true,"values":[{"uuid":"a","ip":"1"}],"values":[{"ip":"2"}]}'',
       JObject [(''success'', JBool True),
                (''values'', JArray [JObject [(''uuid'', JString ''a''), (''ip'', JString ''1'')]]),
                (''values'', JArray [JObject [(''ip'', JString ''2'')]])]),
      (''{"values":5}'', JObject [(''values'', JNumber ''5'')])]\<close>

definition example_env :: environment where
  \<open>example_env =
     \<lparr>scan = map_of example_bodies,
      foldName = map ascii_upper,
      url_error = (\<lambda>u. if u = [] then Some ''empty url'' else None),
      round_trip = (\<lambda>n req.
        if n = 0 then Inr \<lparr>StatusCode = 200, Status = ''200 OK'',
                            Body = Inr ''{"success":false,"values":[]}''\<rparr>
        else if n = 1 then Inr \<lparr>StatusCode = 500, Status = ''500 Internal Server Error'',
                                 Body = Inr ''error''\<rparr>
        else Inl ''connection refused'')\<rparr>\<close>

definition example_cfg :: Config where
  "example_cfg = \<lparr>ApiURL = ''http://fnm/blackhole'', User = ''api'', Password = ''pw'',
       Port = '':9898'', ScrapeInterval = 60 * Second\<rparr>"

definition example_vars :: environ where
  "example_vars =
     [''EXPORTER_API_URL'' \<mapsto> ''http://fnm/blackhole'', ''EXPORTER_USER'' \<mapsto> ''api'',
      ''EXPORTER_PASSWORD'' \<mapsto> ''pw'']"

section \<open>Properties of the decoder\<close>

lemma decode_members_accepts:
  assumes "\<And>k v a. (\<exists>a'. f k v a = Inr a') \<longleftrightarrow> P k v"
  shows "(\<exists>a'. decode_members f ms a = Inr a') \<longleftrightarrow> list_all (\<lambda>(k, v). P k v) ms"
proof (induction ms arbitrary: a)
  case Nil
  show ?case by simp
next
  case (Cons m ms)
  obtain k v where m: "m = (k, v)" by (cases m)
  show ?case
  proof (cases "f k v a")
    case (Inl e)
    then have "\<not> P k v" using assms [of k v a] by simp
    then show ?thesis by (simp add: m Inl)
  next
    case (Inr a1)
    then have "P k v" using assms [of k v a] by auto
    then show ?thesis using Cons.IH [of a1] by (simp add: m Inr)
  qed
qed

lemma decode_string_accepts: "(\<exists>s. decode_string cur j = Inr s) \<longleftrightarrow> string_or_null j"
  by (cases j) (simp_all add: string_or_null_def)

lemma decode_bool_accepts: "(\<exists>b. decode_bool cur j = Inr b) \<longleftrightarrow> bool_or_null j"
  by (cases j) (simp_all add: bool_or_null_def)

lemma set_BlockedValue_field_accepts:
  "(\<exists>b'. set_BlockedValue_field lib k v b = Inr b') \<longleftrightarrow>
   (field_of_key lib [''uuid'', ''ip''] k = None \<or> string_or_null v)"
proof (cases "field_of_key lib [''uuid'', ''ip''] k")
  case None
  then show ?thesis by (simp add: set_BlockedValue_field_def)
next
  case (Some n)
  show ?thesis
    using decode_string_accepts [of "UUID b" v] decode_string_accepts [of "IP b" v]
    by (auto simp: set_BlockedValue_field_def Some split: sum.splits)
qed

lemma decode_BlockedValue_accepts:
  "(\<exists>b'. decode_BlockedValue lib j b = Inr b') \<longleftrightarrow> fits_BlockedValue lib j"
proof (cases j)
  case (JObject ms)
  show ?thesis
    unfolding decode_BlockedValue_def fits_BlockedValue_def JObject json.case
    by (rule decode_members_accepts) (rule set_BlockedValue_field_accepts)
qed (simp_all add: decode_BlockedValue_def fits_BlockedValue_def)

lemma decode_elements_accepts:
  "(\<exists>bs. decode_elements lib js backing = Inr bs) \<longleftrightarrow> list_all (fits_BlockedValue lib) js"
proof (induction js arbitrary: backing)
  case Nil
  show ?case by simp
next
  case (Cons j js)
  show ?case
    using Cons.IH [of "tl backing"]
      decode_BlockedValue_accepts
        [of lib j "case backing of [] \<Rightarrow> zero_BlockedValue | b # bs \<Rightarrow> b"]
    by (auto split: sum.splits)
qed

lemma decode_Values_accepts: "(\<exists>sl'. decode_Values lib j sl = Inr sl') \<longleftrightarrow> fits_Values lib j"
proof (cases j)
  case (JArray js)
  show ?thesis
    using decode_elements_accepts [of lib js "fst sl @ snd sl"]
    by (auto simp: decode_Values_def fits_Values_def JArray split: sum.splits)
qed (simp_all add: decode_Values_def fits_Values_def)

lemma set_BlackholeResponse_field_accepts:
  "(\<exists>st'. set_BlackholeResponse_field lib k v st = Inr st') \<longleftrightarrow> fits_member lib k v"
proof (cases "field_of_key lib [''success'', ''values''] k")
  case None
  then show ?thesis by (simp add: set_BlackholeResponse_field_def fits_member_def)
next
  case (Some n)
  show ?thesis
    using decode_bool_accepts [of "Success (fst st)" v]
      decode_Values_accepts [of lib v "(Values (fst st), snd st)"]
    by (auto simp: set_BlackholeResponse_field_def fits_member_def Some split: sum.splits)
qed

lemma decode_BlackholeResponse_accepts:
  "(\<exists>st'. decode_BlackholeResponse lib j st = Inr st') \<longleftrightarrow> fits_BlackholeResponse lib j"
proof (cases j)
  case (JObject ms)
  show ?thesis
    unfolding decode_BlackholeResponse_def fits_BlackholeResponse_def JObject json.case
    by (rule decode_members_accepts) (rule set_BlackholeResponse_field_accepts)
qed (simp_all add: decode_BlackholeResponse_def fits_BlackholeResponse_def)

lemma json_Unmarshal_decode:
  "scan lib body = Some j \<Longrightarrow>
   json_Unmarshal lib body = Inr r \<longleftrightarrow>
     (\<exists>sp. decode_BlackholeResponse lib j (zero_BlackholeResponse, []) = Inr (r, sp))"
  by (auto simp: json_Unmarshal_def split: sum.splits)

lemma json_Unmarshal_decode_error:
  "scan lib body = Some j \<Longrightarrow>
   json_Unmarshal lib body = Inl e \<longleftrightarrow>
     decode_BlackholeResponse lib j (zero_BlackholeResponse, []) = Inl e"
  by (auto simp: json_Unmarshal_def split: sum.splits)

lemma json_Unmarshal_accepts:
  "(\<exists>r. json_Unmarshal lib body = Inr r) \<longleftrightarrow> accepted lib body"
proof (cases "scan lib body")
  case None
  then show ?thesis by (simp add: json_Unmarshal_def accepted_def)
next
  case (Some j)
  show ?thesis
    using decode_BlackholeResponse_accepts [of lib j "(zero_BlackholeResponse, [])"]
    by (auto simp: json_Unmarshal_decode [OF Some] accepted_def Some)
qed

lemma json_Unmarshal_rejects:
  "(\<exists>e. json_Unmarshal lib body = Inl e) \<longleftrightarrow> \<not> accepted lib body"
  using json_Unmarshal_accepts [of lib body] by (cases "json_Unmarshal lib body") auto

lemma decode_members_error:
  assumes "\<And>k v a e. f k v a = Inl e \<Longrightarrow> e = UnmarshalTypeError"
  shows "decode_members f ms a = Inl e \<Longrightarrow> e = UnmarshalTypeError"
proof (induction ms arbitrary: a)
  case Nil
  then show ?case by simp
next
  case (Cons m ms)
  obtain k v where m: "m = (k, v)" by (cases m)
  show ?case
  proof (cases "f k v a")
    case (Inl e')
    then show ?thesis using Cons.prems assms [of k v a e'] by (simp add: m)
  next
    case (Inr a1)
    then show ?thesis using Cons.prems Cons.IH [of a1] by (simp add: m)
  qed
qed

lemma decode_string_error: "decode_string cur j = Inl e \<Longrightarrow> e = UnmarshalTypeError"
  by (cases j) simp_all

lemma decode_bool_error: "decode_bool cur j = Inl e \<Longrightarrow> e = UnmarshalTypeError"
  by (cases j) simp_all

lemma set_BlockedValue_field_error:
  "set_BlockedValue_field lib k v b = Inl e \<Longrightarrow> e = UnmarshalTypeError"
  by (auto simp: set_BlockedValue_field_def split: option.splits if_splits sum.splits
      dest: decode_string_error)

lemma decode_BlockedValue_error:
  "decode_BlockedValue lib j b = Inl e \<Longrightarrow> e = UnmarshalTypeError"
proof (cases j)
  case (JObject ms)
  assume "decode_BlockedValue lib j b = Inl e"
  then have "decode_members (set_BlockedValue_field lib) ms b = Inl e"
    by (simp add: decode_BlockedValue_def JObject)
  then show ?thesis
    by (rule decode_members_error [rotated]) (rule set_BlockedValue_field_error)
qed (simp_all add: decode_BlockedValue_def)

lemma decode_elements_error:
  "decode_elements lib js backing = Inl e \<Longrightarrow> e = UnmarshalTypeError"
  by (induction js arbitrary: e backing) (auto split: sum.splits dest: decode_BlockedValue_error)

lemma decode_Values_error: "decode_Values lib j sl = Inl e \<Longrightarrow> e = UnmarshalTypeError"
  by (cases j) (auto simp: decode_Values_def split: sum.splits dest: decode_elements_error)

lemma set_BlackholeResponse_field_error:
  "set_BlackholeResponse_field lib k v st = Inl e \<Longrightarrow> e = UnmarshalTypeError"
  by (auto simp: set_BlackholeResponse_field_def split: option.splits if_splits sum.splits
      dest: decode_bool_error decode_Values_error)

lemma decode_BlackholeResponse_error:
  "decode_BlackholeResponse lib j st = Inl e \<Longrightarrow> e = UnmarshalTypeError"
proof (cases j)
  case (JObject ms)
  assume "decode_BlackholeResponse lib j st = Inl e"
  then have "decode_members (set_BlackholeResponse_field lib) ms st = Inl e"
    by (simp add: decode_BlackholeResponse_def JObject)
  then show ?thesis
    by (rule decode_members_error [rotated]) (rule set_BlackholeResponse_field_error)
qed (simp_all add: decode_BlackholeResponse_def)

lemma set_BlackholeResponse_field_other:
  "set_BlackholeResponse_field lib k v st = Inr st' \<Longrightarrow>
   field_of_key lib [''success'', ''values''] k \<noteq> Some ''success'' \<Longrightarrow>
   Success (fst st') = Success (fst st)"
  by (auto simp: set_BlackholeResponse_field_def split: option.splits if_splits sum.splits)

lemma decode_members_Success:
  "decode_members (set_BlackholeResponse_field lib) ms st = Inr st' \<Longrightarrow>
   list_all (\<lambda>(k, v). field_of_key lib [''success'', ''values''] k \<noteq> Some ''success'') ms \<Longrightarrow>
   Success (fst st') = Success (fst st)"
proof (induction ms arbitrary: st)
  case Nil
  then show ?case by simp
next
  case (Cons m ms)
  obtain k v where m: "m = (k, v)" by (cases m)
  from Cons.prems(1) obtain st1 where
    st1: "set_BlackholeResponse_field lib k v st = Inr st1" and
    rest: "decode_members (set_BlackholeResponse_field lib) ms st1 = Inr st'"
    by (auto simp: m split: sum.splits)
  have "Success (fst st1) = Success (fst st)"
    using st1 Cons.prems(2) by (auto simp: m dest: set_BlackholeResponse_field_other)
  moreover have "Success (fst st') = Success (fst st1)"
    using rest Cons.prems(2) by (intro Cons.IH) (simp_all add: m)
  ultimately show ?case by simp
qed

lemma decode_absent_Success:
  "decode_BlackholeResponse lib j st = Inr st' \<Longrightarrow> success_absent lib j \<Longrightarrow>
   Success (fst st') = Success (fst st)"
  by (cases j) (auto simp: decode_BlackholeResponse_def success_absent_def dest: decode_members_Success)














lemma is_string_fits: "is_string v \<Longrightarrow> string_or_null v"
  by (cases v) (simp_all add: is_string_def string_or_null_def)

lemma expected_entry_fits: "expected_entry lib j \<Longrightarrow> fits_BlockedValue lib j"
  by (cases j) (auto simp: expected_entry_def fits_BlockedValue_def list_all_iff dest: is_string_fits)

lemma expected_member_fits: "expected_member lib k v \<Longrightarrow> fits_member lib k v"
  by (cases v)
     (auto simp: expected_member_def fits_member_def fits_Values_def bool_or_null_def list_all_iff
        split: option.splits if_splits dest: expected_entry_fits)

lemma expected_form_fits: "expected_form lib j \<Longrightarrow> fits_BlackholeResponse lib j"
  by (cases j)
     (auto simp: expected_form_def fits_BlackholeResponse_def list_all_iff dest: expected_member_fits)

lemma has_expected_form_accepted: "has_expected_form lib body \<Longrightarrow> accepted lib body"
  by (auto simp: has_expected_form_def accepted_def split: option.splits dest: expected_form_fits)

section \<open>Properties of the store\<close>


lemma set_Gauge_Set:
  "set (Gauge_Set l x g) = {(k, y) \<in> set g. k \<noteq> l} \<union> (if l \<in> fst ` set g then {(l, x)} else {})"
proof (induction g)
  case Nil
  then show ?case by (simp add: Gauge_Set_def)
next
  case (Cons a g)
  obtain k y where a: "a = (k, y)" by (cases a)
  have step: "Gauge_Set l x (a # g) = (if k = l then (k, x) else (k, y)) # Gauge_Set l x g"
    by (simp add: Gauge_Set_def a)
  show ?case
    unfolding step using Cons.IH by (auto simp: a split: if_splits)
qed

lemma set_set_one:
  "set (set_one g v) = {(k, y) \<in> set g. k \<noteq> labels_of v} \<union> {(labels_of v, 1)}"
  by (auto simp: set_one_def set_Gauge_Set With_def)


lemma set_foldl_set_one:
  "\<forall>(k, y) \<in> set g. y = 1 \<Longrightarrow>
   set (foldl set_one g vs) = set g \<union> (\<lambda>v. (labels_of v, 1)) ` set vs"
proof (induction vs arbitrary: g)
  case Nil
  then show ?case by simp
next
  case (Cons v vs)
  have "\<forall>(k, y) \<in> set (set_one g v). y = 1"
    using Cons.prems by (auto simp: set_set_one)
  then have "set (foldl set_one (set_one g v) vs) =
      set (set_one g v) \<union> (\<lambda>v. (labels_of v, 1)) ` set vs"
    by (rule Cons.IH)
  then show ?case using Cons.prems by (auto simp: set_set_one)
qed


lemma render_replace: "render (replace vs g) = (\<lambda>v. (labels_of v, 1)) ` set vs"
  using set_foldl_set_one [of "[]" vs] by (simp add: render_def replace_def Reset_def)


lemma refill_states_char:
  "g \<in> set (refill_states g0 vs) \<Longrightarrow>
   \<exists>k < length vs. g = With (labels_of (vs ! k)) (foldl set_one g0 (take k vs)) \<or>
                   g = foldl set_one g0 (take (Suc k) vs)"
proof (induction vs arbitrary: g0)
  case Nil
  then show ?case by simp
next
  case (Cons v vs)
  from Cons.prems consider
    "g = With (labels_of v) g0" | "g = set_one g0 v" | "g \<in> set (refill_states (set_one g0 v) vs)"
    by auto
  then show ?case
  proof cases
    case 1
    then show ?thesis by (intro exI [of _ 0]) simp
  next
    case 2
    then show ?thesis by (intro exI [of _ 0]) simp
  next
    case 3
    from Cons.IH [OF 3] obtain k where k: "k < length vs"
      and "g = With (labels_of (vs ! k)) (foldl set_one (set_one g0 v) (take k vs)) \<or>
           g = foldl set_one (set_one g0 v) (take (Suc k) vs)"
      by blast
    then show ?thesis by (intro exI [of _ "Suc k"]) simp
  qed
qed

lemma last_refill_states: "last (g0 # refill_states g0 vs) = foldl set_one g0 vs"
  by (induction vs arbitrary: g0) simp_all

lemma render_With:
  "render (With l g) = (if l \<in> fst ` set g then render g else insert (l, 0) (render g))"
  by (simp add: With_def render_def)

section \<open>Properties of a cycle\<close>

lemma fetchBlockedIPs_state:
  "fetchBlockedIPs env cfg s = (r, s') \<Longrightarrow>
   blockedIP s' = blockedIP s \<and> trace s' = trace s \<and> sent s' \<le> sent s + 1"
  by (auto simp: fetchBlockedIPs_def httpClient_Do_def split: sum.splits if_splits)

lemma updateMetrics_Inl:
  "json_Unmarshal env body = Inl e \<Longrightarrow>
   updateMetrics env body s = s\<lparr>trace := trace s @ [LogDecodeError e]\<rparr>"
  by (simp add: updateMetrics_def)

lemma updateMetrics_not_successful:
  "json_Unmarshal env body = Inr resp \<Longrightarrow> \<not> Success resp \<Longrightarrow>
   updateMetrics env body s = s\<lparr>trace := trace s @ [LogNotSuccessful]\<rparr>"
  by (simp add: updateMetrics_def)

lemma updateMetrics_successful:
  "json_Unmarshal env body = Inr resp \<Longrightarrow> Success resp \<Longrightarrow>
   updateMetrics env body s =
     s\<lparr>blockedIP := replace (Values resp) (blockedIP s),
       trace := trace s @ [LogUpdated (length (Values resp))]\<rparr>"
  by (simp add: updateMetrics_def)

lemma scrape_cycle_body:
  "fetchBlockedIPs env cfg (s\<lparr>trace := trace s @ [LogScraping]\<rparr>) = (Inr body, s') \<Longrightarrow>
   scrape_cycle env cfg s = updateMetrics env body s'"
  by (simp add: scrape_cycle_def)

lemma example_fetch:
  \<open>fetchBlockedIPs example_env \<lparr>ApiURL = ''http://fnm/blackhole'', User = ''api'', Password = ''pw'',
       Port = '':9898'', ScrapeInterval = 60 * Second\<rparr>
     \<lparr>blockedIP = g, trace = t, sent = 0\<rparr>
   = (Inr ''{"success":false,"values":[]}'', \<lparr>blockedIP = g, trace = t, sent = 1\<rparr>)\<close>
  by (simp add: fetchBlockedIPs_def http_NewRequest_def httpClient_Do_def SetBasicAuth_def
      StatusOK_def example_env_def)

lemma example_unsuccessful:
  \<open>json_Unmarshal example_env ''{"success":false,"values":[]}'' = Inr \<lparr>Success = False, Values = []\<rparr>\<close>
  by (simp add: json_Unmarshal_def example_env_def example_bodies_def decode_BlackholeResponse_def
    set_BlackholeResponse_field_def field_of_key_def decode_Values_def zero_BlackholeResponse_def)


lemma example_values_number:
  \<open>json_Unmarshal example_env ''{"values":5}'' = Inl UnmarshalTypeError\<close>
  by (simp add: json_Unmarshal_def example_env_def example_bodies_def decode_BlackholeResponse_def
    set_BlackholeResponse_field_def field_of_key_def decode_Values_def zero_BlackholeResponse_def)

lemma example_html:
  \<open>json_Unmarshal example_env ''<html>502 Bad Gateway</html>'' = Inl SyntaxError\<close>
  by (simp add: json_Unmarshal_def example_env_def example_bodies_def)

lemma example_null_values:
  \<open>json_Unmarshal example_env ''{"success":true,"values":null}'' = Inr \<lparr>Success = True, Values = []\<rparr>\<close>
  by (simp add: json_Unmarshal_def example_env_def example_bodies_def decode_BlackholeResponse_def
    set_BlackholeResponse_field_def field_of_key_def decode_Values_def zero_BlackholeResponse_def)


lemma scrape_cycle_publishes:
  assumes "fetchBlockedIPs env cfg (s\<lparr>trace := trace s @ [LogScraping]\<rparr>) = (Inr body, s')"
    and "json_Unmarshal env body = Inr resp" and "Success resp"
  shows "blockedIP (scrape_cycle env cfg s) = replace (Values resp) (blockedIP s) \<and>
         trace (scrape_cycle env cfg s) =
           trace s @ [LogScraping, LogUpdated (length (Values resp))]"
  using fetchBlockedIPs_state [OF assms(1)] assms(2,3)
  by (simp add: scrape_cycle_body [OF assms(1)] updateMetrics_successful)

lemma scrape_cycle_fetch_error:
  assumes "fetchBlockedIPs env cfg (s\<lparr>trace := trace s @ [LogScraping]\<rparr>) = (Inl err, s')"
  shows "blockedIP (scrape_cycle env cfg s) = blockedIP s \<and>
         trace (scrape_cycle env cfg s) = trace s @ [LogScraping, LogScrapeError err]"
  using fetchBlockedIPs_state [OF assms] assms by (simp add: scrape_cycle_def)

lemma fetchBlockedIPs_bad_url:
  "url_error env (ApiURL cfg) = Some e \<Longrightarrow>
   fetchBlockedIPs env cfg s = (Inl (CreatingRequest e), s)"
  by (simp add: fetchBlockedIPs_def http_NewRequest_def)

lemma fetchBlockedIPs_sent:
  "url_error env (ApiURL cfg) = None \<Longrightarrow>
   snd (fetchBlockedIPs env cfg s) = s\<lparr>sent := sent s + 1\<rparr>"
  by (simp add: fetchBlockedIPs_def http_NewRequest_def httpClient_Do_def
      split: sum.splits)

lemma fetchBlockedIPs_good_url:
  "url_error env (ApiURL cfg) = None \<Longrightarrow>
   fst (fetchBlockedIPs env cfg s) =
     (case round_trip env (sent s)
             \<lparr>Method = ''GET'', URL = ApiURL cfg, BasicAuth = Some (User cfg, Password cfg)\<rparr> of
        Inl e \<Rightarrow> Inl (MakingRequest e)
      | Inr resp \<Rightarrow>
          if StatusCode resp \<noteq> 200 then Inl (UnexpectedStatus (StatusCode resp) (Status resp))
          else (case Body resp of Inl e \<Rightarrow> Inl (ReadingBody e) | Inr b \<Rightarrow> Inr b))"
  by (simp add: fetchBlockedIPs_def http_NewRequest_def httpClient_Do_def SetBasicAuth_def
      StatusOK_def split: sum.splits)

lemma trace_scrape_cycle:
  "\<exists>ev. trace (scrape_cycle env cfg s) = trace s @ [LogScraping, ev] \<and>
        (\<forall>err. fst (fetchBlockedIPs env cfg (s\<lparr>trace := trace s @ [LogScraping]\<rparr>)) = Inl err \<longrightarrow>
           ev = LogScrapeError err) \<and>
        (\<forall>body e. fst (fetchBlockedIPs env cfg (s\<lparr>trace := trace s @ [LogScraping]\<rparr>)) = Inr body \<and>
           json_Unmarshal env body = Inl e \<longrightarrow> ev = LogDecodeError e)"
proof -
  obtain r s' where f: "fetchBlockedIPs env cfg (s\<lparr>trace := trace s @ [LogScraping]\<rparr>) = (r, s')"
    by (cases "fetchBlockedIPs env cfg (s\<lparr>trace := trace s @ [LogScraping]\<rparr>)")
  have t: "trace s' = trace s @ [LogScraping]"
    using fetchBlockedIPs_state [OF f] by simp
  show ?thesis
  proof (cases r)
    case (Inl err)
    then show ?thesis using f t by (simp add: scrape_cycle_def)
  next
    case (Inr body)
    then show ?thesis using f t
      by (cases "json_Unmarshal env body") (simp_all add: scrape_cycle_def updateMetrics_def)
  qed
qed

lemma iterations_Suc_right:
  "iterations (Suc n) env cfg s = receive_tick (scrape_cycle env cfg (iterations n env cfg s))"
  by (induction n arbitrary: s) simp_all

lemma trace_iterations_prefix: "\<exists>evs. trace (iterations n env cfg s) = trace s @ evs"
proof (induction n arbitrary: s)
  case 0
  show ?case by simp
next
  case (Suc n)
  obtain ev where ev: "trace (scrape_cycle env cfg s) = trace s @ [LogScraping, ev]"
    using trace_scrape_cycle [of env cfg s] by blast
  obtain evs where
    "trace (iterations n env cfg (receive_tick (scrape_cycle env cfg s))) =
       trace (receive_tick (scrape_cycle env cfg s)) @ evs"
    using Suc.IH by blast
  then show ?case by (simp add: receive_tick_def ev)
qed

lemma trace_iterations_first:
  "\<exists>evs. trace (iterations (Suc n) env cfg s) = trace s @ LogScraping # evs"
proof -
  obtain ev where ev: "trace (scrape_cycle env cfg s) = trace s @ [LogScraping, ev]"
    using trace_scrape_cycle [of env cfg s] by blast
  obtain evs where
    "trace (iterations n env cfg (receive_tick (scrape_cycle env cfg s))) =
       trace (receive_tick (scrape_cycle env cfg s)) @ evs"
    using trace_iterations_prefix by blast
  then show ?thesis by (simp add: receive_tick_def ev)
qed

lemma scrape_forever_None: "scrape_forever env cfg s = None"
proof (cases "scrape_forever env cfg s")
  case None
  then show ?thesis .
next
  case (Some y)
  have False
  proof (rule scrape_forever.raw_induct [where P = "\<lambda>env cfg s y. False", OF _ Some])
    fix f env cfg s y
    assume "\<And>env cfg s y. f env cfg s = Some y \<Longrightarrow> False"
      and "f env cfg (receive_tick (scrape_cycle env cfg s)) = Some y"
    then show False by blast
  qed
  then show ?thesis ..
qed

lemma scraping_loop_rounds:
  assumes "0 < sint (ScrapeInterval cfg)"
  shows "startScrapingLoop n env cfg s = Inr (iterations n env cfg s) \<and>
         startScrapingLoop (Suc n) env cfg s =
           Inr (iterations n env cfg (receive_tick (scrape_cycle env cfg s))) \<and>
         (\<exists>evs. trace (iterations (Suc n) env cfg s) = trace s @ LogScraping # evs) \<and>
         trace (iterations (Suc n) env cfg s) =
           trace (scrape_cycle env cfg (iterations n env cfg s)) @ [Tick] \<and>
         (\<exists>ev. trace (scrape_cycle env cfg s) = trace s @ [LogScraping, ev] \<and>
            (\<forall>err. fst (fetchBlockedIPs env cfg (s\<lparr>trace := trace s @ [LogScraping]\<rparr>)) = Inl err \<longrightarrow>
               ev = LogScrapeError err) \<and>
            (\<forall>body e. fst (fetchBlockedIPs env cfg (s\<lparr>trace := trace s @ [LogScraping]\<rparr>)) = Inr body \<and>
               json_Unmarshal env body = Inl e \<longrightarrow> ev = LogDecodeError e)) \<and>
         scrape_forever env cfg s = None"
proof -
  have "startScrapingLoop n env cfg s = Inr (iterations n env cfg s) \<and>
         startScrapingLoop (Suc n) env cfg s =
           Inr (iterations n env cfg (receive_tick (scrape_cycle env cfg s)))"
    using assms by (simp add: startScrapingLoop_def)
  moreover have "trace (iterations (Suc n) env cfg s) =
           trace (scrape_cycle env cfg (iterations n env cfg s)) @ [Tick]"
    by (simp only: iterations_Suc_right) (simp add: receive_tick_def)
  ultimately show ?thesis
    using trace_iterations_first [of n env cfg s] trace_scrape_cycle [of env cfg s]
      scrape_forever_None [of env cfg s]
    by blast
qed

section \<open>Properties of the configuration\<close>

lemma Atoi_overflow_input: "Atoi ''9223372037'' = Inr 9223372037"
  by (simp add: Atoi_def digit_val_def Let_def)


lemma seconds_in_range:
  fixes i :: "64 word"
  assumes "0 < sint i" and "sint i \<le> 9223372036"
  shows "sint (i * Second) = sint i * 1000000000"
proof -
  have "sint (i * Second) = signed_take_bit 63 (sint i * 1000000000)"
    by (simp add: sint_word_mult Second_def)
  also have "\<dots> = sint i * 1000000000"
    using assms by (intro signed_take_bit_int_eq_self) simp_all
  finally show ?thesis .
qed

lemma interval_in_seconds:
  assumes "godotenv_Load file vars0 = (err, vars)"
    and "snd (loadConfig file vars0) = Inr cfg"
  shows "(\<forall>i. Atoi (Getenv vars ''EXPORTER_SCRAPE_INTERVAL_SECONDS'') = Inr i \<and>
              0 < sint i \<and> sint i \<le> 9223372036 \<longrightarrow>
            sint (ScrapeInterval cfg) = sint i * 1000000000) \<and>
         ((\<exists>e. Atoi (Getenv vars ''EXPORTER_SCRAPE_INTERVAL_SECONDS'') = Inl e) \<or>
          (\<exists>i. Atoi (Getenv vars ''EXPORTER_SCRAPE_INTERVAL_SECONDS'') = Inr i \<and> sint i \<le> 0) \<longrightarrow>
            sint (ScrapeInterval cfg) = 60000000000)"
proof -
  have sixty: "sint (60 * Second) = 60000000000"
    by (simp add: Second_def)
  show ?thesis
    using assms
    by (auto simp: loadConfig_def Let_def seconds_in_range sixty split: if_splits)
qed

section \<open>The claims\<close>

text \<open>
  C1. The claim that a concurrent render sees either the complete old or the complete new
  snapshot fails: after \<open>Reset\<close> and before the first \<open>With\<close> the store is empty, which is
  neither the old snapshot nor the new one.
\<close>

theorem concurrent_render_old_or_new_counterexample:
  "Reset [((''1.2.3.4'', ''u1''), 1)]
     \<in> set (replace_states [\<lparr>UUID = ''u2'', IP = ''5.6.7.8''\<rparr>] [((''1.2.3.4'', ''u1''), 1)]) \<and>
   render (Reset [((''1.2.3.4'', ''u1''), 1)]) \<noteq> render [((''1.2.3.4'', ''u1''), 1)] \<and>
   render (Reset [((''1.2.3.4'', ''u1''), 1)])
     \<noteq> render (replace [\<lparr>UUID = ''u2'', IP = ''5.6.7.8''\<rparr>] [((''1.2.3.4'', ''u1''), 1)])"
  by (simp add: replace_states_def render_def Reset_def replace_def set_one_def With_def
      Gauge_Set_def labels_of_def)

text \<open>
  C1, as amended. A render that runs while the store is being replaced sees the old store,
  or a partly built new one: the series of the first \<open>k\<close> entries of the new list, each with
  value 1, possibly together with the gauge of the next entry, just created and still 0. The
  last of these stores is the new snapshot.
\<close>

theorem concurrent_render_old_or_prefix:
  assumes "g \<in> set (replace_states vs old)"
  shows "(g = old \<or>
          (\<exists>k \<le> length vs.
             render g = (\<lambda>v. (labels_of v, 1)) ` set (take k vs) \<or>
             k < length vs \<and>
             render g = insert (labels_of (vs ! k), 0) ((\<lambda>v. (labels_of v, 1)) ` set (take k vs)))) \<and>
         last (replace_states vs old) = replace vs old \<and>
         render (last (replace_states vs old)) = (\<lambda>v. (labels_of v, 1)) ` set vs"
proof -
  have "last (replace_states vs old) = replace vs old"
    using last_refill_states [of "Reset old" vs]
    by (simp add: replace_states_def replace_def)
  then have fin: "last (replace_states vs old) = replace vs old \<and>
      render (last (replace_states vs old)) = (\<lambda>v. (labels_of v, 1)) ` set vs"
    by (simp add: render_replace)
  from assms consider "g = old" | "g = Reset old" | "g \<in> set (refill_states (Reset old) vs)"
    by (auto simp: replace_states_def)
  then have "g = old \<or>
          (\<exists>k \<le> length vs.
             render g = (\<lambda>v. (labels_of v, 1)) ` set (take k vs) \<or>
             k < length vs \<and>
             render g = insert (labels_of (vs ! k), 0) ((\<lambda>v. (labels_of v, 1)) ` set (take k vs)))"
  proof cases
    case 1
    then show ?thesis by simp
  next
    case 2
    then have "render g = (\<lambda>v. (labels_of v, 1)) ` set (take 0 vs)"
      by (simp add: Reset_def render_def)
    then show ?thesis by blast
  next
    case 3
    from refill_states_char [OF 3] obtain k where k: "k < length vs"
      and g: "g = With (labels_of (vs ! k)) (replace (take k vs) old) \<or>
              g = replace (take (Suc k) vs) old"
      by (auto simp: replace_def)
    from g show ?thesis
    proof
      assume w: "g = With (labels_of (vs ! k)) (replace (take k vs) old)"
      have "render g = (\<lambda>v. (labels_of v, 1)) ` set (take k vs) \<or>
            render g = insert (labels_of (vs ! k), 0) ((\<lambda>v. (labels_of v, 1)) ` set (take k vs))"
        unfolding w render_With by (simp add: render_replace)
      then show ?thesis using k by (intro disjI2 exI [of _ k]) auto
    next
      assume "g = replace (take (Suc k) vs) old"
      then have "render g = (\<lambda>v. (labels_of v, 1)) ` set (take (Suc k) vs)"
        by (simp only: render_replace)
      then show ?thesis using k by (intro disjI2 exI [of _ "Suc k"]) auto
    qed
  qed
  then show ?thesis using fin by blast
qed

theorem concurrent_render_old_or_prefix_witness:
  "With (''5.6.7.8'', ''u2'') []
     \<in> set (replace_states [\<lparr>UUID = ''u2'', IP = ''5.6.7.8''\<rparr>] [((''1.2.3.4'', ''u1''), 1)]) \<and>
   render (With (''5.6.7.8'', ''u2'') []) = {((''5.6.7.8'', ''u2''), 0)} \<and>
   last (replace_states [\<lparr>UUID = ''u2'', IP = ''5.6.7.8''\<rparr>] [((''1.2.3.4'', ''u1''), 1)])
     = [((''5.6.7.8'', ''u2''), 1)]"
proof -
  have h: "With (''5.6.7.8'', ''u2'') []
     \<in> set (replace_states [\<lparr>UUID = ''u2'', IP = ''5.6.7.8''\<rparr>] [((''1.2.3.4'', ''u1''), 1)])"
    by (simp add: replace_states_def Reset_def labels_of_def)
  show ?thesis
    using h concurrent_render_old_or_prefix [OF h]
    by (simp add: replace_def Reset_def set_one_def With_def Gauge_Set_def labels_of_def render_def)
qed

text \<open>
  C2. When the decoded \<open>success\<close> field of the payload is false, \<open>updateMetrics\<close>
  leaves the store as it was, whatever \<open>values\<close> held; a scrape cycle that fetched such a
  payload ends with the store, and so the rendered series, of before the cycle, and with the
  log line of the not-successful branch.
\<close>

theorem unsuccessful_payload_keeps_store:
  assumes "json_Unmarshal env body = Inr resp" and "\<not> Success resp"
  shows "blockedIP (updateMetrics env body s) = blockedIP s \<and>
         (fst (fetchBlockedIPs env cfg (s\<lparr>trace := trace s @ [LogScraping]\<rparr>)) = Inr body \<longrightarrow>
            blockedIP (scrape_cycle env cfg s) = blockedIP s \<and>
            render (blockedIP (scrape_cycle env cfg s)) = render (blockedIP s) \<and>
            last (trace (scrape_cycle env cfg s)) = LogNotSuccessful)"
proof -
  have upd: "updateMetrics env body t = t\<lparr>trace := trace t @ [LogNotSuccessful]\<rparr>" for t
    using assms by (rule updateMetrics_not_successful)
  have "blockedIP (scrape_cycle env cfg s) = blockedIP s \<and>
        last (trace (scrape_cycle env cfg s)) = LogNotSuccessful"
    if f: "fst (fetchBlockedIPs env cfg (s\<lparr>trace := trace s @ [LogScraping]\<rparr>)) = Inr body"
  proof -
    obtain s' where s': "fetchBlockedIPs env cfg (s\<lparr>trace := trace s @ [LogScraping]\<rparr>) = (Inr body, s')"
      using f by (cases "fetchBlockedIPs env cfg (s\<lparr>trace := trace s @ [LogScraping]\<rparr>)") auto
    have "blockedIP s' = blockedIP s"
      using fetchBlockedIPs_state [OF s'] by simp
    then show ?thesis
      by (simp add: scrape_cycle_body [OF s'] upd)
  qed
  then show ?thesis by (simp add: upd)
qed

theorem unsuccessful_payload_keeps_store_witness:
  \<open>json_Unmarshal example_env ''{"success":false,"values":[]}'' = Inr \<lparr>Success = False, Values = []\<rparr> \<and>
   blockedIP (scrape_cycle example_env
      \<lparr>ApiURL = ''http://fnm/blackhole'', User = ''api'', Password = ''pw'',
       Port = '':9898'', ScrapeInterval = 60 * Second\<rparr>
      \<lparr>blockedIP = [((''1.2.3.4'', ''u1''), 1)], trace = [], sent = 0\<rparr>)
   = [((''1.2.3.4'', ''u1''), 1)]\<close>
  using unsuccessful_payload_keeps_store [OF example_unsuccessful, of
      "\<lparr>blockedIP = [((''1.2.3.4'', ''u1''), 1)], trace = [], sent = 0\<rparr>"
      "\<lparr>ApiURL = ''http://fnm/blackhole'', User = ''api'', Password = ''pw'',
       Port = '':9898'', ScrapeInterval = 60 * Second\<rparr>"]
  by (simp add: example_fetch example_unsuccessful)




text \<open>
  C4. The claim that every body outside the expected form gives a decode error and leaves
  the store alone fails: a body with \<open>null\<close> under \<open>values\<close> is not of the form
  \<open>{success: bool, values: [{uuid, ip}]}\<close>, yet it decodes without error, and with
  \<open>success\<close> true it empties the store.
\<close>

theorem null_values_counterexample:
  \<open>\<not> has_expected_form example_env ''{"success":true,"values":null}'' \<and>
   json_Unmarshal example_env ''{"success":true,"values":null}''
     = Inr \<lparr>Success = True, Values = []\<rparr> \<and>
   updateMetrics example_env ''{"success":true,"values":null}''
      \<lparr>blockedIP = [((''1.2.3.4'', ''u1''), 1)], trace = [], sent = 1\<rparr>
     = \<lparr>blockedIP = [], trace = [LogUpdated 0], sent = 1\<rparr>\<close>
proof -
  have \<open>\<not> has_expected_form example_env ''{"success":true,"values":null}''\<close>
    by (simp add: has_expected_form_def example_env_def example_bodies_def expected_form_def
        expected_member_def field_of_key_def)
  moreover have \<open>updateMetrics example_env ''{"success":true,"values":null}''
      \<lparr>blockedIP = [((''1.2.3.4'', ''u1''), 1)], trace = [], sent = 1\<rparr>
     = \<lparr>blockedIP = [], trace = [LogUpdated 0], sent = 1\<rparr>\<close>
    by (simp add: updateMetrics_successful [OF example_null_values] replace_def Reset_def)
  ultimately show ?thesis
    by (simp only: example_null_values simp_thms)
qed

text \<open>
  C4, as amended. A body the decoder does not accept (not valid JSON, or JSON in which the
  value itself, or a value under \<open>success\<close>, \<open>values\<close>, \<open>uuid\<close> or \<open>ip\<close>, or an
  element of the array, has the wrong type, \<open>null\<close> being of every type) is not of the
  expected form and makes \<open>json.Unmarshal\<close> fail; \<open>updateMetrics\<close> then only appends the
  log line of the decode error, and a cycle that fetched such a body logs the error and
  leaves the store as it was.
\<close>

theorem malformed_payload_keeps_store:
  assumes "\<not> accepted env body"
  shows "\<not> has_expected_form env body \<and>
         (\<exists>e. json_Unmarshal env body = Inl e \<and>
             updateMetrics env body s = s\<lparr>trace := trace s @ [LogDecodeError e]\<rparr> \<and>
             blockedIP (updateMetrics env body s) = blockedIP s \<and>
             (fst (fetchBlockedIPs env cfg (s\<lparr>trace := trace s @ [LogScraping]\<rparr>)) = Inr body \<longrightarrow>
                blockedIP (scrape_cycle env cfg s) = blockedIP s \<and>
                trace (scrape_cycle env cfg s) = trace s @ [LogScraping, LogDecodeError e]))"
proof -
  have form: "\<not> has_expected_form env body"
    using assms has_expected_form_accepted [of env body] by blast
  obtain e where e: "json_Unmarshal env body = Inl e"
    using assms json_Unmarshal_rejects [of env body] by blast
  have upd: "updateMetrics env body t = t\<lparr>trace := trace t @ [LogDecodeError e]\<rparr>" for t
    using e by (rule updateMetrics_Inl)
  have "blockedIP (scrape_cycle env cfg s) = blockedIP s \<and>
        trace (scrape_cycle env cfg s) = trace s @ [LogScraping, LogDecodeError e]"
    if f: "fst (fetchBlockedIPs env cfg (s\<lparr>trace := trace s @ [LogScraping]\<rparr>)) = Inr body"
  proof -
    obtain s' where s': "fetchBlockedIPs env cfg (s\<lparr>trace := trace s @ [LogScraping]\<rparr>) = (Inr body, s')"
      using f by (cases "fetchBlockedIPs env cfg (s\<lparr>trace := trace s @ [LogScraping]\<rparr>)") auto
    have "blockedIP s' = blockedIP s" "trace s' = trace s @ [LogScraping]"
      using fetchBlockedIPs_state [OF s'] by simp_all
    then show ?thesis
      by (simp add: scrape_cycle_body [OF s'] upd)
  qed
  then show ?thesis using e form by (simp add: upd)
qed

theorem malformed_payload_keeps_store_witness:
  \<open>\<not> accepted example_env ''{"values":5}'' \<and>
   updateMetrics example_env ''{"values":5}''
      \<lparr>blockedIP = [((''1.2.3.4'', ''u1''), 1)], trace = [], sent = 1\<rparr>
   = \<lparr>blockedIP = [((''1.2.3.4'', ''u1''), 1)], trace = [LogDecodeError UnmarshalTypeError], sent = 1\<rparr> \<and>
   \<not> accepted example_env ''<html>502 Bad Gateway</html>'' \<and>
   updateMetrics example_env ''<html>502 Bad Gateway</html>''
      \<lparr>blockedIP = [((''1.2.3.4'', ''u1''), 1)], trace = [], sent = 1\<rparr>
   = \<lparr>blockedIP = [((''1.2.3.4'', ''u1''), 1)], trace = [LogDecodeError SyntaxError], sent = 1\<rparr>\<close>
proof -
  have h1: \<open>\<not> accepted example_env ''{"values":5}''\<close>
    by (simp add: accepted_def example_env_def example_bodies_def fits_BlackholeResponse_def
        fits_member_def fits_Values_def field_of_key_def)
  have h2: \<open>\<not> accepted example_env ''<html>502 Bad Gateway</html>''\<close>
    by (simp add: accepted_def example_env_def example_bodies_def)
  show ?thesis
    using h1 h2
      malformed_payload_keeps_store [OF h1, of
        "\<lparr>blockedIP = [((''1.2.3.4'', ''u1''), 1)], trace = [], sent = 1\<rparr>"]
      malformed_payload_keeps_store [OF h2, of
        "\<lparr>blockedIP = [((''1.2.3.4'', ''u1''), 1)], trace = [], sent = 1\<rparr>"]
    by (auto simp: example_html example_values_number)
qed

text \<open>
  C5. The guard of \<open>loadConfig\<close> replaces an unparseable or non-positive number of seconds
  by 60, but the product with \<open>time.Second\<close> is a 64-bit multiplication: for the value
  9223372037 it wraps around to a negative duration, with which \<open>time.NewTicker\<close> panics.
  Up to 9223372036 seconds the interval is the number of seconds given
  (\<open>interval_in_seconds\<close>).
\<close>

theorem loadConfig_interval_overflow:
  "snd (loadConfig (Inl ''open .env: no such file or directory'')
         (example_vars(''EXPORTER_SCRAPE_INTERVAL_SECONDS'' \<mapsto> ''9223372037'')))
     = Inr \<lparr>ApiURL = ''http://fnm/blackhole'', User = ''api'', Password = ''pw'', Port = '':9898'',
            ScrapeInterval = 9223372037 * Second\<rparr> \<and>
   sint (9223372037 * Second) = - 9223372036709551616 \<and>
   startScrapingLoop n env
       \<lparr>ApiURL = ''http://fnm/blackhole'', User = ''api'', Password = ''pw'', Port = '':9898'',
        ScrapeInterval = 9223372037 * Second\<rparr> s
     = Inl NonPositiveInterval"
  by (simp add: loadConfig_def godotenv_Load_def Getenv_def example_vars_def Atoi_overflow_input
      Second_def startScrapingLoop_def)

text \<open>
  C6. \<open>loadConfig\<close> fails exactly when, after the file \<open>.env\<close> has been merged into
  the environment, one of API URL, user and password is empty or not set, and then \<open>main\<close>
  exits with status 1. When the three are present it succeeds, keeps them, and the port is
  \<open>:9898\<close> when the port variable is empty or not set, the variable's value otherwise.
\<close>

theorem loadConfig_fails_iff_missing:
  assumes "godotenv_Load file vars0 = (err, vars)"
  shows "((\<exists>e. snd (loadConfig file vars0) = Inl e) \<longleftrightarrow>
            Getenv vars ''EXPORTER_API_URL'' = [] \<or> Getenv vars ''EXPORTER_USER'' = [] \<or>
            Getenv vars ''EXPORTER_PASSWORD'' = []) \<and>
         ((\<exists>e. snd (loadConfig file vars0) = Inl e) \<longrightarrow> main file vars0 = Exit 1) \<and>
         (Getenv vars ''EXPORTER_API_URL'' \<noteq> [] \<and> Getenv vars ''EXPORTER_USER'' \<noteq> [] \<and>
          Getenv vars ''EXPORTER_PASSWORD'' \<noteq> [] \<longrightarrow>
            (\<exists>cfg. snd (loadConfig file vars0) = Inr cfg \<and> main file vars0 = Started cfg \<and>
               ApiURL cfg = Getenv vars ''EXPORTER_API_URL'' \<and>
               User cfg = Getenv vars ''EXPORTER_USER'' \<and>
               Password cfg = Getenv vars ''EXPORTER_PASSWORD'' \<and>
               Port cfg = (if Getenv vars ''EXPORTER_PORT'' = [] then '':9898''
                           else Getenv vars ''EXPORTER_PORT'')))"
  using assms
  by (auto simp: loadConfig_def main_def Let_def)

theorem loadConfig_fails_iff_missing_witness:
  "godotenv_Load (Inl ''open .env: no such file or directory'') example_vars
     = (Some ''open .env: no such file or directory'', example_vars) \<and>
   (\<exists>cfg. main (Inl ''open .env: no such file or directory'') example_vars = Started cfg \<and>
      Port cfg = '':9898'') \<and>
   main (Inl ''open .env: no such file or directory'') (example_vars(''EXPORTER_USER'' := None)) = Exit 1"
proof -
  have h1: "godotenv_Load (Inl ''open .env: no such file or directory'') example_vars
     = (Some ''open .env: no such file or directory'', example_vars)"
    by (simp add: godotenv_Load_def)
  have h2: "godotenv_Load (Inl ''open .env: no such file or directory'')
       (example_vars(''EXPORTER_USER'' := None))
     = (Some ''open .env: no such file or directory'', example_vars(''EXPORTER_USER'' := None))"
    by (simp add: godotenv_Load_def)
  show ?thesis
    using h1 loadConfig_fails_iff_missing [OF h1] loadConfig_fails_iff_missing [OF h2]
    by (auto simp: Getenv_def example_vars_def)
qed

text \<open>
  C7. What \<open>fetchBlockedIPs\<close> returns, with \<open>rt\<close> the answer of the network to the one
  request it builds: an error when the request cannot be built, when the round trip fails,
  when the status is not 200 (the error carries the code) and when the body cannot be read;
  the body's bytes exactly when the round trip gave status 200 and a readable body. It sends
  one request when the request can be built and none otherwise.
\<close>

theorem fetchBlockedIPs_results:
  assumes "round_trip env (sent s)
             \<lparr>Method = ''GET'', URL = ApiURL cfg, BasicAuth = Some (User cfg, Password cfg)\<rparr> = rt"
  shows "(\<forall>e. url_error env (ApiURL cfg) = Some e \<longrightarrow>
            fetchBlockedIPs env cfg s = (Inl (CreatingRequest e), s)) \<and>
         (url_error env (ApiURL cfg) = None \<longrightarrow>
            (\<forall>e. rt = Inl e \<longrightarrow> fst (fetchBlockedIPs env cfg s) = Inl (MakingRequest e)) \<and>
            (\<forall>resp. rt = Inr resp \<and> StatusCode resp \<noteq> 200 \<longrightarrow>
               fst (fetchBlockedIPs env cfg s) = Inl (UnexpectedStatus (StatusCode resp) (Status resp))) \<and>
            (\<forall>resp e. rt = Inr resp \<and> StatusCode resp = 200 \<and> Body resp = Inl e \<longrightarrow>
               fst (fetchBlockedIPs env cfg s) = Inl (ReadingBody e)) \<and>
            snd (fetchBlockedIPs env cfg s) = s\<lparr>sent := sent s + 1\<rparr>) \<and>
         (\<forall>b. fst (fetchBlockedIPs env cfg s) = Inr b \<longleftrightarrow>
            url_error env (ApiURL cfg) = None \<and>
            (\<exists>resp. rt = Inr resp \<and> StatusCode resp = 200 \<and> Body resp = Inr b)) \<and>
         sent (snd (fetchBlockedIPs env cfg s)) \<le> sent s + 1"
proof (cases "url_error env (ApiURL cfg)")
  case None
  show ?thesis
    using assms
    by (auto simp: None fetchBlockedIPs_good_url fetchBlockedIPs_sent split: sum.splits)
next
  case (Some e)
  show ?thesis
    by (simp add: Some fetchBlockedIPs_bad_url)
qed

theorem fetchBlockedIPs_results_witness:
  \<open>fetchBlockedIPs example_env example_cfg \<lparr>blockedIP = [], trace = [], sent = 1\<rparr>
     = (Inl (UnexpectedStatus 500 ''500 Internal Server Error''), \<lparr>blockedIP = [], trace = [], sent = 2\<rparr>) \<and>
   fst (fetchBlockedIPs example_env example_cfg \<lparr>blockedIP = [], trace = [], sent = 2\<rparr>)
     = Inl (MakingRequest ''connection refused'') \<and>
   fst (fetchBlockedIPs example_env example_cfg \<lparr>blockedIP = [], trace = [], sent = 0\<rparr>)
     = Inr ''{"success":false,"values":[]}''\<close>
proof -
  have u: "url_error example_env (ApiURL example_cfg) = None"
    by (simp add: example_env_def example_cfg_def)
  have r0: \<open>round_trip example_env (sent \<lparr>blockedIP = [], trace = [], sent = 0\<rparr>)
      \<lparr>Method = ''GET'', URL = ApiURL example_cfg,
       BasicAuth = Some (User example_cfg, Password example_cfg)\<rparr>
     = Inr \<lparr>StatusCode = 200, Status = ''200 OK'', Body = Inr ''{"success":false,"values":[]}''\<rparr>\<close>
    by (simp add: example_env_def)
  have r1: \<open>round_trip example_env (sent \<lparr>blockedIP = [], trace = [], sent = 1\<rparr>)
      \<lparr>Method = ''GET'', URL = ApiURL example_cfg,
       BasicAuth = Some (User example_cfg, Password example_cfg)\<rparr>
     = Inr \<lparr>StatusCode = 500, Status = ''500 Internal Server Error'', Body = Inr ''error''\<rparr>\<close>
    by (simp add: example_env_def)
  have r2: \<open>round_trip example_env (sent \<lparr>blockedIP = [], trace = [], sent = 2\<rparr>)
      \<lparr>Method = ''GET'', URL = ApiURL example_cfg,
       BasicAuth = Some (User example_cfg, Password example_cfg)\<rparr>
     = Inl ''connection refused''\<close>
    by (simp add: example_env_def)
  show ?thesis
    using fetchBlockedIPs_results [OF r0] fetchBlockedIPs_results [OF r1]
      fetchBlockedIPs_results [OF r2] u
    by (simp add: prod_eq_iff)
qed

text \<open>
  C8. With the configuration that \<open>loadConfig\<close> returns for an interval of 9223372037
  seconds, \<open>main\<close> starts the scraping goroutine and \<open>startScrapingLoop\<close> panics in
  \<open>time.NewTicker\<close> before its first cycle, whatever the number of ticks waited for. With
  a positive interval the loop does what the claim says (\<open>scraping_loop_rounds\<close>,
  \<open>scrape_cycle_publishes\<close>, \<open>scrape_cycle_fetch_error\<close>).
\<close>

theorem startScrapingLoop_overflow_panics:
  "main (Inl ''open .env: no such file or directory'')
       (example_vars(''EXPORTER_SCRAPE_INTERVAL_SECONDS'' \<mapsto> ''9223372037''))
     = Started \<lparr>ApiURL = ''http://fnm/blackhole'', User = ''api'', Password = ''pw'',
                Port = '':9898'', ScrapeInterval = 9223372037 * Second\<rparr> \<and>
   startScrapingLoop 0 example_env
       \<lparr>ApiURL = ''http://fnm/blackhole'', User = ''api'', Password = ''pw'', Port = '':9898'',
        ScrapeInterval = 9223372037 * Second\<rparr>
       \<lparr>blockedIP = [], trace = [], sent = 0\<rparr>
     = Inl NonPositiveInterval \<and>
   startScrapingLoop 1 example_env
       \<lparr>ApiURL = ''http://fnm/blackhole'', User = ''api'', Password = ''pw'', Port = '':9898'',
        ScrapeInterval = 9223372037 * Second\<rparr>
       \<lparr>blockedIP = [], trace = [], sent = 0\<rparr>
     = Inl NonPositiveInterval"
  by (simp add: main_def loadConfig_def godotenv_Load_def Getenv_def example_vars_def
      Atoi_overflow_input Second_def startScrapingLoop_def)

text \<open>
  C9. Replacing the store with an entry list and replacing it again with the same list gives
  the same store, hence the same rendered series; the same holds for two runs of
  \<open>updateMetrics\<close> on the same body.
\<close>

theorem replace_idempotent:
  "replace vs (replace vs g) = replace vs g \<and>
   render (replace vs (replace vs g)) = render (replace vs g) \<and>
   blockedIP (updateMetrics env body (updateMetrics env body s)) = blockedIP (updateMetrics env body s)"
  by (simp add: replace_def Reset_def updateMetrics_def split: sum.splits)

theorem replace_idempotent_witness:
  \<open>replace [\<lparr>UUID = ''u1'', IP = ''1.2.3.4''\<rparr>]
     (replace [\<lparr>UUID = ''u1'', IP = ''1.2.3.4''\<rparr>] [((''9.9.9.9'', ''u0''), 1)])
   = [((''1.2.3.4'', ''u1''), 1)]\<close>
  using replace_idempotent [of "[\<lparr>UUID = ''u1'', IP = ''1.2.3.4''\<rparr>]" "[((''9.9.9.9'', ''u0''), 1)]"]
  by (simp add: replace_def Reset_def set_one_def With_def Gauge_Set_def labels_of_def)

text \<open>
  C10. The claim that decoding never fails when the \<open>success\<close> field is absent fails on a
  body whose other field has the wrong type: \<open>values\<close> holding a number is a type error.
\<close>

theorem absent_success_decode_error_counterexample:
  \<open>scan example_env ''{"values":5}'' = Some (JObject [(''values'', JNumber ''5'')]) \<and>
   success_absent example_env (JObject [(''values'', JNumber ''5'')]) \<and>
   json_Unmarshal example_env ''{"values":5}'' = Inl UnmarshalTypeError\<close>
  by (simp add: example_values_number)
     (simp add: example_env_def example_bodies_def success_absent_def field_of_key_def)

text \<open>
  C10, as amended. When the body is valid JSON and no key of it matches the field
  \<open>success\<close>, the store is left unchanged. If the decoder accepts the value otherwise,
  decoding succeeds with \<open>Success\<close> false and the not-successful branch is taken; if not,
  decoding fails with a type error and the decode-error branch is taken.
\<close>

theorem absent_success_keeps_store:
  assumes "scan env body = Some j" and "success_absent env j"
  shows "blockedIP (updateMetrics env body s) = blockedIP s \<and>
         (if fits_BlackholeResponse env j
          then (\<exists>r. json_Unmarshal env body = Inr r \<and> \<not> Success r) \<and>
               updateMetrics env body s = s\<lparr>trace := trace s @ [LogNotSuccessful]\<rparr>
          else json_Unmarshal env body = Inl UnmarshalTypeError \<and>
               updateMetrics env body s = s\<lparr>trace := trace s @ [LogDecodeError UnmarshalTypeError]\<rparr>)"
proof (cases "fits_BlackholeResponse env j")
  case True
  then have "accepted env body"
    by (simp add: accepted_def assms(1))
  then obtain r where r: "json_Unmarshal env body = Inr r"
    using json_Unmarshal_accepts [of env body] by blast
  then obtain sp where
    "decode_BlackholeResponse env j (zero_BlackholeResponse, []) = Inr (r, sp)"
    by (auto simp: json_Unmarshal_decode [OF assms(1)])
  then have "Success r = Success zero_BlackholeResponse"
    using assms(2) by (auto dest: decode_absent_Success)
  then have "\<not> Success r"
    by (simp add: zero_BlackholeResponse_def)
  then show ?thesis
    using True r by (simp add: updateMetrics_not_successful)
next
  case False
  then have "\<not> accepted env body"
    by (simp add: accepted_def assms(1))
  then obtain e where e: "json_Unmarshal env body = Inl e"
    using json_Unmarshal_rejects [of env body] by blast
  then have "decode_BlackholeResponse env j (zero_BlackholeResponse, []) = Inl e"
    by (simp add: json_Unmarshal_decode_error [OF assms(1)])
  then have "e = UnmarshalTypeError"
    by (rule decode_BlackholeResponse_error)
  then show ?thesis
    using False e by (simp add: updateMetrics_Inl)
qed

theorem absent_success_keeps_store_witness:
  \<open>scan example_env ''{}'' = Some (JObject []) \<and> success_absent example_env (JObject []) \<and>
   fits_BlackholeResponse example_env (JObject []) \<and>
   updateMetrics example_env ''{}'' \<lparr>blockedIP = [((''1.2.3.4'', ''u1''), 1)], trace = [], sent = 1\<rparr>
   = \<lparr>blockedIP = [((''1.2.3.4'', ''u1''), 1)], trace = [LogNotSuccessful], sent = 1\<rparr>\<close>
proof -
  have h1: \<open>scan example_env ''{}'' = Some (JObject [])\<close>
    by (simp add: example_env_def example_bodies_def)
  have h2: \<open>success_absent example_env (JObject [])\<close>
    by (simp add: success_absent_def)
  have h3: \<open>fits_BlackholeResponse example_env (JObject [])\<close>
    by (simp add: fits_BlackholeResponse_def)
  show ?thesis
    using h1 h2 h3 absent_success_keeps_store [OF h1 h2, of
      "\<lparr>blockedIP = [((''1.2.3.4'', ''u1''), 1)], trace = [], sent = 1\<rparr>"]
    by simp
qed

end
